theory Spec2Isabelle
  imports Main "HOL-Library.Sublist"
begin

section \<open>Python strings and dictionaries\<close>

text \<open>
  A Python \<open>str\<close> is a sequence of Unicode code points. It is modelled as a list of
  natural numbers, one per code point, so that concatenation, comparison and the
  whitespace tests of \<open>str.strip\<close> and \<open>str.split\<close> see what Python sees. The
  literals of the source are ASCII; \<open>py\<close> turns a HOL string literal into the code
  points of its characters.
\<close>

type_synonym pystr = "nat list"

definition py :: "string \<Rightarrow> pystr" where
  "py s = map of_char s"

text \<open>
  The only exception the modelled functions could raise is the \<open>KeyError\<close> of a
  subscript \<open>d[k]\<close> on a missing key. A dictionary literal is an association list;
  the keys of both tables are pairwise distinct, so the first match of \<open>map_of\<close> is
  the entry Python keeps.
\<close>

datatype error = KeyError pystr

type_synonym pydict = "(pystr \<times> pystr) list"

definition dict_getitem :: "pydict \<Rightarrow> pystr \<Rightarrow> error + pystr" where
  "dict_getitem d k = (case map_of d k of None \<Rightarrow> Inl (KeyError k) | Some v \<Rightarrow> Inr v)"

definition dict_get :: "pydict \<Rightarrow> pystr \<Rightarrow> pystr \<Rightarrow> pystr" where
  "dict_get d k dflt = (case map_of d k of None \<Rightarrow> dflt | Some v \<Rightarrow> v)"

section \<open>The prompt helpers of tokenizer.py\<close>

text \<open>
  \<open>create_negative_prompt(style="general")\<close> builds its table, evaluates the default
  \<open>negative_prompts["general"]\<close> (a subscript, which may raise) and then calls
  \<open>negative_prompts.get(style, default)\<close>.
\<close>

definition negative_prompts :: pydict where
  "negative_prompts =
     [(py ''general'',
         py ''blurry, low quality, distorted, deformed, bad anatomy, bad proportions''),
      (py ''portrait'',
         py ''blurry, low quality, bad face, deformed face, extra limbs, bad anatomy''),
      (py ''landscape'',
         py ''blurry, low quality, distorted horizon, bad composition, oversaturated''),
      (py ''object'',
         py ''blurry, low quality, deformed, bad shape, unrealistic proportions'')]"

definition create_negative_prompt :: "pystr \<Rightarrow> error + pystr" where
  "create_negative_prompt style =
     (case dict_getitem negative_prompts (py ''general'') of
        Inl e \<Rightarrow> Inl e
      | Inr dflt \<Rightarrow> Inr (dict_get negative_prompts style dflt))"

text \<open>
  \<open>enhance_prompt(prompt, style="realistic")\<close> looks the style up the same way and
  formats \<open>f"{prompt}, {enhancement}"\<close>.
\<close>

definition enhancements :: pydict where
  "enhancements =
     [(py ''realistic'', py ''photorealistic, high quality, detailed, 8k resolution''),
      (py ''artistic'', py ''artistic, beautiful, masterpiece, high quality''),
      (py ''professional'', py ''professional photography, studio lighting, high quality''),
      (py ''cinematic'',
         py ''cinematic lighting, dramatic, high quality, film photography'')]"

definition enhance_prompt :: "pystr \<Rightarrow> pystr \<Rightarrow> error + pystr" where
  "enhance_prompt prompt style =
     (case dict_getitem enhancements (py ''realistic'') of
        Inl e \<Rightarrow> Inl e
      | Inr dflt \<Rightarrow>
          (let enhancement = dict_get enhancements style dflt
           in Inr (prompt @ py '', '' @ enhancement)))"

text \<open>The style and category names the two tables register.\<close>

definition recognized_styles :: "pystr set" where
  "recognized_styles = {py ''realistic'', py ''artistic'', py ''professional'', py ''cinematic''}"

definition recognized_categories :: "pystr set" where
  "recognized_categories = {py ''general'', py ''portrait'', py ''landscape'', py ''object''}"

section \<open>The same helpers over an explicit object store\<close>

text \<open>
  Both functions build their table as a local dictionary on every call. To speak about
  what a call can change, the dictionaries of the running program live in a store:
  every address below \<open>next_addr\<close> holds an object that exists, a dictionary literal
  allocates the next address, and subscripts and \<open>get\<close> read through the address.
\<close>

record pystate =
  dicts :: "nat \<Rightarrow> pydict"
  next_addr :: nat

definition new_dict :: "pydict \<Rightarrow> pystate \<Rightarrow> nat \<times> pystate" where
  "new_dict d s =
     (next_addr s, s\<lparr>dicts := (dicts s)(next_addr s := d), next_addr := Suc (next_addr s)\<rparr>)"

definition create_negative_prompt_st :: "pystr \<Rightarrow> pystate \<Rightarrow> (error + pystr) \<times> pystate" where
  "create_negative_prompt_st style s =
     (case new_dict negative_prompts s of
        (tbl, s1) \<Rightarrow>
          (case dict_getitem (dicts s1 tbl) (py ''general'') of
             Inl e \<Rightarrow> (Inl e, s1)
           | Inr dflt \<Rightarrow> (Inr (dict_get (dicts s1 tbl) style dflt), s1)))"

definition enhance_prompt_st :: "pystr \<Rightarrow> pystr \<Rightarrow> pystate \<Rightarrow> (error + pystr) \<times> pystate" where
  "enhance_prompt_st prompt style s =
     (case new_dict enhancements s of
        (tbl, s1) \<Rightarrow>
          (case dict_getitem (dicts s1 tbl) (py ''realistic'') of
             Inl e \<Rightarrow> (Inl e, s1)
           | Inr dflt \<Rightarrow>
               (let enhancement = dict_get (dicts s1 tbl) style dflt
                in (Inr (prompt @ py '', '' @ enhancement), s1))))"

section \<open>TextProcessor.preprocess\_text\<close>

text \<open>
  \<open>str.strip()\<close> and \<open>str.split()\<close> without arguments use the whitespace test of
  Python's \<open>str\<close>: the code points U+0009 to U+000D, U+001C to U+0020, U+0085, U+00A0,
  U+1680, U+2000 to U+200A, U+2028, U+2029, U+202F, U+205F and U+3000.
\<close>

definition isspace :: "nat \<Rightarrow> bool" where
  "isspace c \<longleftrightarrow>
     (9 \<le> c \<and> c \<le> 13) \<or> (28 \<le> c \<and> c \<le> 32) \<or> c = 133 \<or> c = 160 \<or> c = 5760 \<or>
     (8192 \<le> c \<and> c \<le> 8202) \<or> c = 8232 \<or> c = 8233 \<or> c = 8239 \<or> c = 8287 \<or> c = 12288"

definition str_strip :: "pystr \<Rightarrow> pystr" where
  "str_strip s = rev (dropWhile isspace (rev (dropWhile isspace s)))"

text \<open>
  \<open>s.split()\<close>: skip whitespace, take the longest run of other characters as a word,
  go on behind it. No word is empty.
\<close>

function str_split :: "pystr \<Rightarrow> pystr list" where
  "str_split s =
     (let s' = dropWhile isspace s
      in if s' = [] then []
         else takeWhile (\<lambda>c. \<not> isspace c) s' # str_split (dropWhile (\<lambda>c. \<not> isspace c) s'))"
  by pat_completeness auto
termination
proof (relation "measure length")
  show "wf (measure length)" by simp
next
  fix s s' :: pystr
  assume a: "s' = dropWhile isspace s" "s' \<noteq> []"
  from a have "\<not> isspace (hd s')" by (simp add: hd_dropWhile)
  moreover from a(2) obtain c cs where s': "s' = c # cs" by (cases s') simp_all
  ultimately have "dropWhile (\<lambda>c. \<not> isspace c) s' = dropWhile (\<lambda>c. \<not> isspace c) cs"
    by simp
  then have "length (dropWhile (\<lambda>c. \<not> isspace c) s') \<le> length cs"
    by (simp add: length_dropWhile_le)
  moreover have "length s' \<le> length s" using a by (simp add: length_dropWhile_le)
  ultimately show "(dropWhile (\<lambda>c. \<not> isspace c) s', s) \<in> measure length"
    using s' by simp
qed

declare str_split.simps [simp del]

fun str_join :: "pystr \<Rightarrow> pystr list \<Rightarrow> pystr" where
  "str_join sep [] = []"
| "str_join sep [w] = w"
| "str_join sep (w # v # ws) = w @ sep @ str_join sep (v # ws)"

definition preprocess_text :: "pystr \<Rightarrow> pystr" where
  "preprocess_text text =
     (let text1 = str_strip text;
          text2 = str_join (py '' '') (str_split text1)
      in if text2 = [] then py ''a simple image'' else text2)"

text \<open>
  What the description of \<open>preprocess_text\<close> asks of a cleaned text: every whitespace
  character in it is the space U+0020 and the character after it is not whitespace.
\<close>

fun single_spaced :: "pystr \<Rightarrow> bool" where
  "single_spaced [] = True"
| "single_spaced [c] = (if isspace c then c = 32 else True)"
| "single_spaced (c # d # cs) =
     ((if isspace c then c = 32 \<and> \<not> isspace d else True) \<and> single_spaced (d # cs))"

section \<open>Facts about literals and the two tables\<close>

lemma py_eq_iff: "py a = py b \<longleftrightarrow> a = b"
  unfolding py_def by (simp add: inj_def)

lemma py_append: "py (a @ b) = py a @ py b"
  by (simp add: py_def)

lemma enhancements_realistic:
  "dict_getitem enhancements (py ''realistic'') =
     Inr (py ''photorealistic, high quality, detailed, 8k resolution'')"
  by (simp add: dict_getitem_def enhancements_def)

lemma negative_prompts_general:
  "dict_getitem negative_prompts (py ''general'') =
     Inr (py ''blurry, low quality, distorted, deformed, bad anatomy, bad proportions'')"
  by (simp add: dict_getitem_def negative_prompts_def)

text \<open>The default subscript succeeds, so each function is one \<open>get\<close> on its table.\<close>

lemma enhance_prompt_eq:
  "enhance_prompt p style =
     Inr (p @ py '', '' @
          dict_get enhancements style
            (py ''photorealistic, high quality, detailed, 8k resolution''))"
  by (simp add: enhance_prompt_def enhancements_realistic)

lemma create_negative_prompt_eq:
  "create_negative_prompt style =
     Inr (dict_get negative_prompts style
            (py ''blurry, low quality, distorted, deformed, bad anatomy, bad proportions''))"
  by (simp add: create_negative_prompt_def negative_prompts_general)

lemma dom_enhancements: "dom (map_of enhancements) = recognized_styles"
  by (auto simp: enhancements_def recognized_styles_def split: if_splits)

lemma dom_negative_prompts: "dom (map_of negative_prompts) = recognized_categories"
  by (auto simp: negative_prompts_def recognized_categories_def split: if_splits)

lemma dict_get_Some: "map_of d k = Some v \<Longrightarrow> dict_get d k dflt = v"
  by (simp add: dict_get_def)

lemma dict_get_None: "map_of d k = None \<Longrightarrow> dict_get d k dflt = dflt"
  by (simp add: dict_get_def)

section \<open>enhance\_prompt and create\_negative\_prompt\<close>

text \<open>
  C1. For every prompt \<open>p\<close> and every style among realistic, artistic, professional and
  cinematic, \<open>enhance_prompt\<close> returns \<open>p\<close>, then the separator \<open>", "\<close>, then the
  suffix the table registers for the style (for realistic: "photorealistic, high
  quality, detailed, 8k resolution"); so the result starts with \<open>p\<close> and with
  \<open>p + ", "\<close> and ends with that suffix.
\<close>

theorem enhance_prompt_recognized:
  "style \<in> recognized_styles \<Longrightarrow>
     (\<exists>sfx r. map_of enhancements style = Some sfx \<and>
        enhance_prompt p style = Inr r \<and> r = p @ py '', '' @ sfx \<and>
        prefix p r \<and> prefix (p @ py '', '') r \<and> suffix sfx r) \<and>
     map_of enhancements (py ''realistic'') =
       Some (py ''photorealistic, high quality, detailed, 8k resolution'')"
proof -
  assume "style \<in> recognized_styles"
  then obtain sfx where s: "map_of enhancements style = Some sfx"
    using dom_enhancements by blast
  have "enhance_prompt p style = Inr (p @ py '', '' @ sfx)"
    by (simp add: enhance_prompt_eq dict_get_Some [OF s])
  moreover have "suffix sfx (p @ py '', '' @ sfx)"
    by (simp add: suffix_def)
  moreover have "map_of enhancements (py ''realistic'') =
       Some (py ''photorealistic, high quality, detailed, 8k resolution'')"
    by (simp add: enhancements_def)
  ultimately show ?thesis using s by simp
qed

theorem enhance_prompt_recognized_witness:
  "py ''artistic'' \<in> recognized_styles \<and>
   enhance_prompt (py ''dog'') (py ''artistic'') =
     Inr (py ''dog, artistic, beautiful, masterpiece, high quality'')"
  using enhance_prompt_recognized [of "py ''artistic''" "py ''dog''"]
  by (auto simp: recognized_styles_def enhancements_def py_eq_iff py_append [symmetric])

text \<open>
  C2. For every prompt \<open>p\<close> and every style outside the four recognized names (such as
  "bogus"), \<open>enhance_prompt\<close> returns what it returns for the style "realistic": the
  prompt, then ", ", then the realistic entry "photorealistic, high quality, detailed,
  8k resolution". The unknown style raises nothing.
\<close>

theorem enhance_prompt_unknown_style:
  "style \<notin> recognized_styles \<Longrightarrow>
     enhance_prompt p style = enhance_prompt p (py ''realistic'') \<and>
     enhance_prompt p style =
       Inr (p @ py '', '' @ py ''photorealistic, high quality, detailed, 8k resolution'')"
proof -
  assume "style \<notin> recognized_styles"
  then have "map_of enhancements style = None"
    using dom_enhancements by blast
  then show ?thesis
    by (simp add: enhance_prompt_eq dict_get_None) (simp add: dict_get_def enhancements_def)
qed

theorem enhance_prompt_unknown_style_witness:
  "py ''bogus'' \<notin> recognized_styles \<and>
   enhance_prompt (py ''a cat'') (py ''bogus'') =
     enhance_prompt (py ''a cat'') (py ''realistic'') \<and>
   enhance_prompt (py ''a cat'') (py ''bogus'') =
     Inr (py ''a cat, photorealistic, high quality, detailed, 8k resolution'')"
proof -
  have h: "py ''bogus'' \<notin> recognized_styles"
    by (simp add: recognized_styles_def py_eq_iff)
  have l: "py ''a cat'' @ py '', '' @
      py ''photorealistic, high quality, detailed, 8k resolution'' =
      py ''a cat, photorealistic, high quality, detailed, 8k resolution''"
    by (simp add: py_def)
  note r = enhance_prompt_unknown_style [OF h, of "py ''a cat''", unfolded l]
  show ?thesis using h r by (rule conjI)
qed

text \<open>
  C3. For every recognized category, \<open>create_negative_prompt\<close> returns the entry the
  table holds for it; for "portrait" that is "blurry, low quality, bad face, deformed
  face, extra limbs, bad anatomy".
\<close>

theorem create_negative_prompt_recognized:
  "(category \<in> recognized_categories \<longrightarrow>
      (\<exists>entry. map_of negative_prompts category = Some entry \<and>
         create_negative_prompt category = Inr entry)) \<and>
   create_negative_prompt (py ''portrait'') =
     Inr (py ''blurry, low quality, bad face, deformed face, extra limbs, bad anatomy'')"
proof (intro conjI impI)
  assume "category \<in> recognized_categories"
  then obtain entry where e: "map_of negative_prompts category = Some entry"
    using dom_negative_prompts by blast
  then show "\<exists>entry. map_of negative_prompts category = Some entry \<and>
      create_negative_prompt category = Inr entry"
    by (simp add: create_negative_prompt_eq dict_get_Some)
next
  show "create_negative_prompt (py ''portrait'') =
     Inr (py ''blurry, low quality, bad face, deformed face, extra limbs, bad anatomy'')"
    by (simp add: create_negative_prompt_eq dict_get_def negative_prompts_def py_eq_iff)
qed

theorem create_negative_prompt_recognized_witness:
  "py ''landscape'' \<in> recognized_categories \<and>
   create_negative_prompt (py ''landscape'') =
     Inr (py ''blurry, low quality, distorted horizon, bad composition, oversaturated'')"
  using create_negative_prompt_recognized [of "py ''landscape''"]
  by (auto simp: recognized_categories_def negative_prompts_def py_eq_iff)

text \<open>
  C4. For every category outside general, portrait, landscape and object (such as
  "unknown-category"), \<open>create_negative_prompt\<close> returns what it returns for
  "general", the string "blurry, low quality, distorted, deformed, bad anatomy, bad
  proportions"; the result is a value, not an error.
\<close>

theorem create_negative_prompt_unknown:
  "category \<notin> recognized_categories \<Longrightarrow>
     create_negative_prompt category = create_negative_prompt (py ''general'') \<and>
     create_negative_prompt category =
       Inr (py ''blurry, low quality, distorted, deformed, bad anatomy, bad proportions'')"
proof -
  assume "category \<notin> recognized_categories"
  then have "map_of negative_prompts category = None"
    using dom_negative_prompts by blast
  then show ?thesis
    by (simp add: create_negative_prompt_eq dict_get_None)
       (simp add: dict_get_def negative_prompts_def)
qed

theorem create_negative_prompt_unknown_witness:
  "py ''unknown-category'' \<notin> recognized_categories \<and>
   create_negative_prompt (py ''unknown-category'') = create_negative_prompt (py ''general'') \<and>
   create_negative_prompt (py ''unknown-category'') =
     Inr (py ''blurry, low quality, distorted, deformed, bad anatomy, bad proportions'')"
proof -
  have h: "py ''unknown-category'' \<notin> recognized_categories"
    by (simp add: recognized_categories_def py_eq_iff)
  from create_negative_prompt_unknown [OF h] h show ?thesis by blast
qed

text \<open>
  C5. Both functions are total on strings: whatever the prompt, the style and the
  category are (empty, whitespace only, unrecognized), each returns a string. The
  \<open>KeyError\<close> branch of the default subscript is never taken.
\<close>

theorem prompt_helpers_total:
  "(\<exists>r. enhance_prompt p style = Inr r) \<and> (\<exists>r. create_negative_prompt category = Inr r)"
  by (simp add: enhance_prompt_eq create_negative_prompt_eq)

text \<open>
  C6. \<open>enhance_prompt\<close> does not trim, change the case of or validate the prompt: for
  each style there is one text that is appended to every prompt unchanged, so the
  prompt is a prefix of the result; for the empty prompt and the style "realistic" the
  result is ", photorealistic, high quality, detailed, 8k resolution", which begins
  with ", ".
\<close>

theorem enhance_prompt_keeps_prompt:
  "(\<exists>e. \<forall>p. enhance_prompt p style = Inr (p @ py '', '' @ e)) \<and>
   (\<exists>r. enhance_prompt p style = Inr r \<and> prefix p r \<and> take (length p) r = p) \<and>
   enhance_prompt [] (py ''realistic'') =
     Inr (py '', photorealistic, high quality, detailed, 8k resolution'') \<and>
   prefix (py '', '') (py '', photorealistic, high quality, detailed, 8k resolution'')"
proof (intro conjI)
  show "\<exists>e. \<forall>p. enhance_prompt p style = Inr (p @ py '', '' @ e)"
    by (simp add: enhance_prompt_eq)
  show "\<exists>r. enhance_prompt p style = Inr r \<and> prefix p r \<and> take (length p) r = p"
    by (simp add: enhance_prompt_eq)
  show "enhance_prompt [] (py ''realistic'') =
     Inr (py '', photorealistic, high quality, detailed, 8k resolution'')"
    by (simp add: enhance_prompt_eq dict_get_def enhancements_def py_append [symmetric])
  show "prefix (py '', '') (py '', photorealistic, high quality, detailed, 8k resolution'')"
    by (simp add: py_def)
qed

text \<open>
  C8. \<open>enhance_prompt("a cute dog", "cinematic")\<close> is "a cute dog, cinematic
  lighting, dramatic, high quality, film photography".
\<close>

theorem enhance_prompt_cute_dog:
  "enhance_prompt (py ''a cute dog'') (py ''cinematic'') =
     Inr (py ''a cute dog, cinematic lighting, dramatic, high quality, film photography'')"
  by (simp add: enhance_prompt_eq dict_get_def enhancements_def py_eq_iff py_append [symmetric])

subsection \<open>What every table entry shares\<close>

lemma sublist_py_mid: "sublist (py b) (py (a @ b @ c))"
  by (simp add: py_append)

lemma sublist_in_value:
  "map_of enhancements style = Some v \<Longrightarrow> sublist (py ''high quality'') v"
proof -
  assume a: "map_of enhancements style = Some v"
  have 1: "sublist (py ''high quality'')
      (py (''photorealistic, '' @ ''high quality'' @ '', detailed, 8k resolution''))"
    by (rule sublist_py_mid)
  have 2: "sublist (py ''high quality'')
      (py (''artistic, beautiful, masterpiece, '' @ ''high quality'' @ []))"
    by (rule sublist_py_mid)
  have 3: "sublist (py ''high quality'')
      (py (''professional photography, studio lighting, '' @ ''high quality'' @ []))"
    by (rule sublist_py_mid)
  have 4: "sublist (py ''high quality'')
      (py (''cinematic lighting, dramatic, '' @ ''high quality'' @ '', film photography''))"
    by (rule sublist_py_mid)
  from a 1 2 3 4 show ?thesis
    by (auto simp: enhancements_def split: if_splits)
qed

lemma prefix_in_value:
  "map_of negative_prompts category = Some v \<Longrightarrow> prefix (py ''blurry, low quality'') v"
  by (auto simp: negative_prompts_def py_def split: if_splits)

text \<open>
  C9. Whatever the prompt and the style, the string \<open>enhance_prompt\<close> returns contains
  "high quality"; whatever the category, the string \<open>create_negative_prompt\<close> returns
  begins with "blurry, low quality".
\<close>

theorem tables_quality_invariant:
  "(\<exists>r. enhance_prompt p style = Inr r \<and> sublist (py ''high quality'') r) \<and>
   (\<exists>r. create_negative_prompt category = Inr r \<and> prefix (py ''blurry, low quality'') r)"
proof (intro conjI)
  have "sublist (py ''high quality'')
      (dict_get enhancements style (py ''photorealistic, high quality, detailed, 8k resolution''))"
  proof (cases "map_of enhancements style")
    case None
    then show ?thesis
      using sublist_in_value [of "py ''realistic''"]
      by (simp add: dict_get_None enhancements_def)
  next
    case (Some v)
    then show ?thesis by (simp add: dict_get_Some sublist_in_value)
  qed
  then show "\<exists>r. enhance_prompt p style = Inr r \<and> sublist (py ''high quality'') r"
    by (simp add: enhance_prompt_eq sublist_append)
  have "prefix (py ''blurry, low quality'')
      (dict_get negative_prompts category
         (py ''blurry, low quality, distorted, deformed, bad anatomy, bad proportions''))"
  proof (cases "map_of negative_prompts category")
    case None
    then show ?thesis by (simp add: dict_get_None) (simp add: py_def)
  next
    case (Some v)
    then show ?thesis by (simp add: dict_get_Some prefix_in_value)
  qed
  then show "\<exists>r. create_negative_prompt category = Inr r \<and> prefix (py ''blurry, low quality'') r"
    by (simp add: create_negative_prompt_eq)
qed

section \<open>Calls over the object store\<close>

lemma new_dict_frame: "a < next_addr s \<Longrightarrow> dicts (snd (new_dict d s)) a = dicts s a"
  by (simp add: new_dict_def)

lemma new_dict_next: "next_addr (snd (new_dict d s)) = Suc (next_addr s)"
  by (simp add: new_dict_def)

lemma enhance_prompt_st_eq:
  "enhance_prompt_st p style s = (enhance_prompt p style, snd (new_dict enhancements s))"
  by (simp add: enhance_prompt_st_def enhance_prompt_def new_dict_def split: sum.splits)

lemma create_negative_prompt_st_eq:
  "create_negative_prompt_st style s =
     (create_negative_prompt style, snd (new_dict negative_prompts s))"
  by (simp add: create_negative_prompt_st_def create_negative_prompt_def new_dict_def
           split: sum.splits)

text \<open>
  C7. Both functions are deterministic and free of side effects. Called in any two
  states \<open>s\<close> and \<open>s'\<close> of the program with the same arguments they return the same
  value, the one the state-free function gives, and a call changes no object that
  existed before it (the tables of earlier calls among them): it only allocates its
  own table.
\<close>

theorem prompt_helpers_deterministic:
  "fst (enhance_prompt_st p style s) = fst (enhance_prompt_st p style s') \<and>
   fst (enhance_prompt_st p style s) = enhance_prompt p style \<and>
   (\<forall>a<next_addr s. dicts (snd (enhance_prompt_st p style s)) a = dicts s a) \<and>
   next_addr s \<le> next_addr (snd (enhance_prompt_st p style s)) \<and>
   fst (create_negative_prompt_st category s) = fst (create_negative_prompt_st category s') \<and>
   fst (create_negative_prompt_st category s) = create_negative_prompt category \<and>
   (\<forall>a<next_addr s. dicts (snd (create_negative_prompt_st category s)) a = dicts s a) \<and>
   next_addr s \<le> next_addr (snd (create_negative_prompt_st category s))"
  by (simp add: enhance_prompt_st_eq create_negative_prompt_st_eq new_dict_frame new_dict_next)

theorem prompt_helpers_deterministic_witness:
  "(0::nat) < next_addr \<lparr>dicts = (\<lambda>a. [(py ''k'', py ''v'')]), next_addr = 1\<rparr> \<and>
   dicts (snd (enhance_prompt_st (py ''dog'') (py ''bogus'')
      \<lparr>dicts = (\<lambda>a. [(py ''k'', py ''v'')]), next_addr = 1\<rparr>)) 0 = [(py ''k'', py ''v'')] \<and>
   fst (enhance_prompt_st (py ''dog'') (py ''bogus'')
      \<lparr>dicts = (\<lambda>a. [(py ''k'', py ''v'')]), next_addr = 1\<rparr>) =
   fst (enhance_prompt_st (py ''dog'') (py ''bogus'') \<lparr>dicts = (\<lambda>a. []), next_addr = 7\<rparr>)"
  using prompt_helpers_deterministic [of "py ''dog''" "py ''bogus''"
      "\<lparr>dicts = (\<lambda>a. [(py ''k'', py ''v'')]), next_addr = 1\<rparr>"
      "\<lparr>dicts = (\<lambda>a. []), next_addr = 7\<rparr>"]
  by simp

section \<open>Whitespace cleaning in preprocess\_text\<close>

lemma isspace_space: "isspace 32"
  by (simp add: isspace_def)

lemma py_space: "py '' '' = [32]"
  by (simp add: py_def)

lemma str_split_Nil_iff: "str_split s = [] \<longleftrightarrow> list_all isspace s"
  by (subst str_split.simps) (simp add: Let_def list_all_iff)

lemma str_split_dropWhile: "str_split (dropWhile isspace s) = str_split s"
  by (subst str_split.simps, subst (2) str_split.simps) (simp add: Let_def)

lemma while_append_stop:
  "\<forall>x\<in>set ws. \<not> P x \<Longrightarrow>
     takeWhile P (xs @ ws) = takeWhile P xs \<and> dropWhile P (xs @ ws) = dropWhile P xs @ ws"
  by (induction xs) (auto simp: takeWhile_eq_Nil_iff dropWhile_eq_self_iff)

lemma str_split_append_ws:
  "list_all isspace ws \<Longrightarrow> str_split (s @ ws) = str_split s"
proof (induction s rule: str_split.induct)
  case (1 s)
  let ?s' = "dropWhile isspace s"
  show ?case
  proof (cases "?s' = []")
    case True
    then have "list_all isspace (s @ ws)" using "1.prems" by (auto simp: list_all_iff)
    then have a: "str_split (s @ ws) = []" by (simp only: str_split_Nil_iff)
    from True have "list_all isspace s" by (simp add: list_all_iff)
    then have b: "str_split s = []" by (simp only: str_split_Nil_iff)
    show ?thesis by (simp only: a b)
  next
    case False
    then have d: "dropWhile isspace (s @ ws) = ?s' @ ws"
      by (auto simp: dropWhile_append)
    have w: "\<forall>x\<in>set ws. \<not> \<not> isspace x" using "1.prems" by (simp add: list_all_iff)
    note tw = while_append_stop [OF w, of ?s']
    have ih: "str_split (dropWhile (\<lambda>c. \<not> isspace c) ?s' @ ws) =
        str_split (dropWhile (\<lambda>c. \<not> isspace c) ?s')"
      using "1.IH" [OF refl False "1.prems"] .
    show ?thesis
      using False d tw ih
      by (subst str_split.simps, subst (2) str_split.simps) (simp add: Let_def)
  qed
qed

lemma str_split_strip: "str_split (str_strip s) = str_split s"
proof -
  let ?t = "dropWhile isspace s"
  have "rev (takeWhile isspace (rev ?t) @ dropWhile isspace (rev ?t)) = ?t"
    by simp
  then have t: "?t = str_strip s @ rev (takeWhile isspace (rev ?t))"
    by (simp add: str_strip_def del: takeWhile_dropWhile_id)
  have "list_all isspace (rev (takeWhile isspace (rev ?t)))"
    by (simp add: list_all_iff) (meson set_takeWhileD)
  then have "str_split (str_strip s @ rev (takeWhile isspace (rev ?t))) = str_split (str_strip s)"
    by (rule str_split_append_ws)
  with t have "str_split ?t = str_split (str_strip s)" by simp
  then show ?thesis by (simp add: str_split_dropWhile)
qed

lemma str_split_Nil: "str_split [] = []"
  by (simp add: str_split_Nil_iff)

lemma str_split_words:
  "w \<in> set (str_split s) \<Longrightarrow> w \<noteq> [] \<and> (\<forall>c\<in>set w. \<not> isspace c)"
proof (induction s arbitrary: w rule: str_split.induct)
  case (1 s)
  let ?s' = "dropWhile isspace s"
  show ?case
  proof (cases "?s' = []")
    case True
    then have "str_split s = []" by (subst str_split.simps) simp
    with "1.prems" show ?thesis by simp
  next
    case False
    then have eq: "str_split s = takeWhile (\<lambda>c. \<not> isspace c) ?s' #
        str_split (dropWhile (\<lambda>c. \<not> isspace c) ?s')"
      by (subst str_split.simps) (simp add: Let_def)
    from False have "\<not> isspace (hd ?s')" by (simp add: hd_dropWhile)
    with False have ne: "takeWhile (\<lambda>c. \<not> isspace c) ?s' \<noteq> []"
      by (cases ?s') simp_all
    have ns: "\<forall>c\<in>set (takeWhile (\<lambda>c. \<not> isspace c) ?s'). \<not> isspace c"
      by (auto dest: set_takeWhileD)
    from "1.prems" eq consider "w = takeWhile (\<lambda>c. \<not> isspace c) ?s'"
      | "w \<in> set (str_split (dropWhile (\<lambda>c. \<not> isspace c) ?s'))" by auto
    then show ?thesis
    proof cases
      case 1
      show ?thesis unfolding 1 using ne ns by (rule conjI)
    next
      case 2
      show ?thesis using "1.IH" [OF refl False 2] .
    qed
  qed
qed

lemma str_split_word_Cons:
  assumes "w \<noteq> []" "\<forall>c\<in>set w. \<not> isspace c" "rest = [] \<or> isspace (hd rest)"
  shows "str_split (w @ rest) = w # str_split rest"
proof -
  from assms(1,2) have "\<not> isspace (hd w)" by (cases w) simp_all
  with assms(1) have d: "dropWhile isspace (w @ rest) = w @ rest"
    by (cases w) simp_all
  have t: "takeWhile (\<lambda>c. \<not> isspace c) (w @ rest) = w"
    using assms(2,3) by (cases rest) simp_all
  have dr: "dropWhile (\<lambda>c. \<not> isspace c) (w @ rest) = rest"
    using assms(2,3) by (cases rest) simp_all
  show ?thesis
    using assms(1) d t dr by (subst str_split.simps) (simp add: Let_def)
qed

lemma str_split_space_Cons: "isspace c \<Longrightarrow> str_split (c # rest) = str_split rest"
  using str_split_dropWhile [of "c # rest"] str_split_dropWhile [of rest] by simp

lemma str_split_join:
  "\<forall>w\<in>set ws. w \<noteq> [] \<and> (\<forall>c\<in>set w. \<not> isspace c) \<Longrightarrow> str_split (str_join [32] ws) = ws"
proof (induction "[32::nat]" ws rule: str_join.induct)
  case 1
  show ?case by (simp add: str_split_Nil)
next
  case (2 w)
  then show ?case
    using str_split_word_Cons [of w "[]"] by (simp add: str_split_Nil)
next
  case (3 w v ws)
  then have "str_split (w @ 32 # str_join [32] (v # ws)) = w # str_split (32 # str_join [32] (v # ws))"
    by (intro str_split_word_Cons) (simp_all add: isspace_space)
  with 3 show ?case by (simp add: str_split_space_Cons isspace_space)
qed

lemma str_join_hd:
  "ws \<noteq> [] \<Longrightarrow> \<forall>w\<in>set ws. w \<noteq> [] \<Longrightarrow>
     str_join sep ws \<noteq> [] \<and> hd (str_join sep ws) = hd (hd ws)"
  by (induction sep ws rule: str_join.induct) simp_all

lemma str_join_last:
  "ws \<noteq> [] \<Longrightarrow> \<forall>w\<in>set ws. w \<noteq> [] \<Longrightarrow> last (str_join sep ws) = last (last ws)"
  by (induction sep ws rule: str_join.induct) (simp_all add: str_join_hd)

lemma single_spaced_nonspace_Cons: "\<not> isspace c \<Longrightarrow> single_spaced (c # r) = single_spaced r"
  by (cases r) simp_all

lemma single_spaced_word_append:
  "\<forall>c\<in>set w. \<not> isspace c \<Longrightarrow> single_spaced r \<Longrightarrow> single_spaced (w @ r)"
  by (induction w) (simp_all add: single_spaced_nonspace_Cons)

lemma single_spaced_space_Cons:
  "r \<noteq> [] \<Longrightarrow> \<not> isspace (hd r) \<Longrightarrow> single_spaced r \<Longrightarrow> single_spaced (32 # r)"
  by (cases r) simp_all

lemma single_spaced_join:
  "\<forall>w\<in>set ws. w \<noteq> [] \<and> (\<forall>c\<in>set w. \<not> isspace c) \<Longrightarrow> single_spaced (str_join [32] ws)"
proof (induction "[32::nat]" ws rule: str_join.induct)
  case 1
  show ?case by simp
next
  case (2 w)
  then show ?case using single_spaced_word_append [of w "[]"] by simp
next
  case (3 w v ws)
  then have ss: "single_spaced (str_join [32] (v # ws))" by simp
  from 3 have "str_join [32] (v # ws) \<noteq> [] \<and> hd (str_join [32] (v # ws)) = hd v"
    using str_join_hd [of "v # ws" "[32]"] by simp
  moreover from 3 have "\<not> isspace (hd v)" by (cases v) simp_all
  ultimately have "single_spaced (32 # str_join [32] (v # ws))"
    using ss by (simp add: single_spaced_space_Cons)
  with 3 show ?case by (simp add: single_spaced_word_append)
qed

lemma filter_dropWhile_space:
  "filter (\<lambda>c. \<not> isspace c) (dropWhile isspace s) = filter (\<lambda>c. \<not> isspace c) s"
  by (induction s) simp_all

lemma filter_takeWhile_nonspace:
  "filter (\<lambda>c. \<not> isspace c) (takeWhile (\<lambda>c. \<not> isspace c) s) = takeWhile (\<lambda>c. \<not> isspace c) s"
  by (induction s) simp_all

lemma concat_str_split: "concat (str_split s) = filter (\<lambda>c. \<not> isspace c) s"
proof (induction s rule: str_split.induct)
  case (1 s)
  let ?s' = "dropWhile isspace s"
  show ?case
  proof (cases "?s' = []")
    case True
    then have "str_split s = []" by (subst str_split.simps) simp
    moreover from True have "filter (\<lambda>c. \<not> isspace c) s = []"
      by (simp add: filter_empty_conv)
    ultimately show ?thesis by simp
  next
    case False
    then have eq: "str_split s = takeWhile (\<lambda>c. \<not> isspace c) ?s' #
        str_split (dropWhile (\<lambda>c. \<not> isspace c) ?s')"
      by (subst str_split.simps) (simp add: Let_def)
    have "filter (\<lambda>c. \<not> isspace c) s = filter (\<lambda>c. \<not> isspace c) ?s'"
      by (simp only: filter_dropWhile_space)
    also have "\<dots> = filter (\<lambda>c. \<not> isspace c)
        (takeWhile (\<lambda>c. \<not> isspace c) ?s' @ dropWhile (\<lambda>c. \<not> isspace c) ?s')"
      by (simp only: takeWhile_dropWhile_id)
    also have "\<dots> = takeWhile (\<lambda>c. \<not> isspace c) ?s' @
        filter (\<lambda>c. \<not> isspace c) (dropWhile (\<lambda>c. \<not> isspace c) ?s')"
      by (simp only: filter_append filter_takeWhile_nonspace)
    finally show ?thesis
      using "1.IH" [OF refl False] by (simp only: eq concat.simps)
  qed
qed

lemma preprocess_text_eq:
  "preprocess_text text =
     (if list_all isspace text then py ''a simple image''
      else str_join [32] (str_split text))"
proof (cases "list_all isspace text")
  case True
  then have "str_split text = []" by (simp only: str_split_Nil_iff)
  with True show ?thesis
    by (simp add: preprocess_text_def str_split_strip)
next
  case False
  then have ne: "str_split text \<noteq> []" by (simp only: str_split_Nil_iff not_False_eq_True)
  have "\<forall>w\<in>set (str_split text). w \<noteq> []" using str_split_words by blast
  with ne have "str_join [32] (str_split text) \<noteq> []" by (simp add: str_join_hd)
  with False show ?thesis
    by (simp add: preprocess_text_def str_split_strip py_space)
qed

text \<open>
  C10. \<open>preprocess_text\<close> strips leading and trailing whitespace and turns every
  inner run of whitespace into one space, and it maps the empty and every
  whitespace-only text to "a simple image"; so its result is never empty. For a text
  with a character that is not whitespace the result is the words of the text joined
  by single spaces: it has the same words and the same non-whitespace characters as
  the text, neither begins nor ends with whitespace, and each whitespace character in
  it is a space followed by a character that is not whitespace.
\<close>

theorem preprocess_text_contract:
  "preprocess_text text \<noteq> [] \<and>
   (list_all isspace text \<longrightarrow> preprocess_text text = py ''a simple image'') \<and>
   (\<not> list_all isspace text \<longrightarrow>
      preprocess_text text = str_join (py '' '') (str_split text) \<and>
      str_split (preprocess_text text) = str_split text \<and>
      filter (\<lambda>c. \<not> isspace c) (preprocess_text text) = filter (\<lambda>c. \<not> isspace c) text \<and>
      \<not> isspace (hd (preprocess_text text)) \<and>
      \<not> isspace (last (preprocess_text text)) \<and>
      single_spaced (preprocess_text text))"
proof (cases "list_all isspace text")
  case True
  then show ?thesis by (simp add: preprocess_text_eq py_def)
next
  case False
  let ?ws = "str_split text"
  let ?r = "str_join [32] ?ws"
  have r: "preprocess_text text = ?r" using False by (simp add: preprocess_text_eq)
  have ne: "?ws \<noteq> []" using False by (simp only: str_split_Nil_iff not_False_eq_True)
  have words: "\<forall>w\<in>set ?ws. w \<noteq> [] \<and> (\<forall>c\<in>set w. \<not> isspace c)"
    using str_split_words by blast
  then have words_ne: "\<forall>w\<in>set ?ws. w \<noteq> []" by blast
  have split: "str_split ?r = ?ws" using words by (rule str_split_join)
  have "filter (\<lambda>c. \<not> isspace c) ?r = concat (str_split ?r)"
    by (simp only: concat_str_split)
  then have filt: "filter (\<lambda>c. \<not> isspace c) ?r = filter (\<lambda>c. \<not> isspace c) text"
    by (simp only: split concat_str_split)
  have hd_in: "hd ?ws \<in> set ?ws" and last_in: "last ?ws \<in> set ?ws" using ne by simp_all
  have "hd (hd ?ws) \<in> set (hd ?ws)" using words_ne hd_in by simp
  then have h: "\<not> isspace (hd ?r)"
    using words hd_in str_join_hd [OF ne words_ne, of "[32]"] by simp
  have "last (last ?ws) \<in> set (last ?ws)" using words_ne last_in by simp
  then have l: "\<not> isspace (last ?r)"
    using words last_in str_join_last [OF ne words_ne, of "[32]"] by simp
  have nonempty: "?r \<noteq> []" using str_join_hd [OF ne words_ne, of "[32]"] by simp
  have ss: "single_spaced ?r" using words by (rule single_spaced_join)
  show ?thesis
    using False nonempty split filt h l ss by (simp add: r py_space)
qed

theorem preprocess_text_contract_witness:
  "list_all isspace [32, 9, 10] \<and> preprocess_text [32, 9, 10] = py ''a simple image'' \<and>
   \<not> list_all isspace [32, 9, 97, 32, 10, 160, 98, 99, 32] \<and>
   preprocess_text [32, 9, 97, 32, 10, 160, 98, 99, 32] = [97, 32, 98, 99]"
proof -
  have a: "list_all isspace [32, 9, 10]"
    by (simp add: isspace_def)
  have b: "\<not> list_all isspace [32, 9, 97, 32, 10, 160, 98, 99, 32]"
    by (simp add: isspace_def)
  have c: "str_join (py '' '') (str_split [32, 9, 97, 32, 10, 160, 98, 99, 32]) = [97, 32, 98, 99]"
    by (simp add: str_split.simps isspace_def py_def)
  from preprocess_text_contract [of "[32, 9, 10]"] a
  have "preprocess_text [32, 9, 10] = py ''a simple image''" by blast
  moreover from preprocess_text_contract [of "[32, 9, 97, 32, 10, 160, 98, 99, 32]"] b
  have "preprocess_text [32, 9, 97, 32, 10, 160, 98, 99, 32] =
      str_join (py '' '') (str_split [32, 9, 97, 32, 10, 160, 98, 99, 32])" by blast
  ultimately show ?thesis using a b c by simp
qed

end
